theory Spec2Isabelle
  imports Complex_Main "HOL-Library.Word"
begin

section \<open>Frames and the frame difference (secwebcam.py, lines 131-140)\<close>

text \<open>
  A frame is what \<open>cam.read()\<close> returns after the timestamp has been drawn on it: a
  numpy array of shape \<open>(rows, cols, 3)\<close> of unsigned bytes, stored here row by row.
  An array is well formed when it holds \<open>rows * cols\<close> pixels; a shape such as
  \<open>(0, 5)\<close> is a well-formed array without pixels.
\<close>

record 'p image =
  rows :: nat
  cols :: nat
  pix :: "'p list"

type_synonym bgr = "8 word \<times> 8 word \<times> 8 word"
type_synonym frame = "bgr image"

definition wf_image :: "'p image \<Rightarrow> bool" where
  "wf_image a \<longleftrightarrow> length (pix a) = rows a * cols a"

definition same_shape :: "'p image \<Rightarrow> 'q image \<Rightarrow> bool" where
  "same_shape a b \<longleftrightarrow> rows a = rows b \<and> cols a = cols b"

text \<open>
  The failures of the program. \<open>CvError\<close> is the \<open>cv2.error\<close> an OpenCV call raises
  when it refuses its arguments, \<open>DivisionFault\<close> the failure of line 138 on a
  normalizer of 0. \<open>InvalidFrameError\<close> is the error the specification names for a
  frame without area; no statement of the source raises it.
\<close>

datatype error =
    IndexError
  | CvError
  | DivisionFault
  | InvalidFrameError
  | SystemExit1

text \<open>
  \<open>cv2.cvtColor(frame, cv2.COLOR_BGR2GRAY)\<close> maps every pixel to one intensity and
  keeps the shape. It refuses an image without pixels (its assertion
  \<open>!_src.empty()\<close>) with \<open>cv2.error\<close>. The library is not part of the repository:
  its per-pixel conversion is the parameter \<open>gray\<close> of everything below.
\<close>

definition cvtColor :: "(bgr \<Rightarrow> 8 word) \<Rightarrow> frame \<Rightarrow> error + 8 word image" where
  "cvtColor gray a =
     (if rows a = 0 \<or> cols a = 0 then Inl CvError
      else Inr \<lparr>rows = rows a, cols = cols a, pix = map gray (pix a)\<rparr>)"

text \<open>
  The conversion OpenCV documents for 8-bit images, \<open>Y = 0.299 R + 0.587 G + 0.114 B\<close>
  in fixed point with 14 fractional bits. It is used for the concrete runs only.
\<close>

definition cvt_gray :: "bgr \<Rightarrow> 8 word" where
  "cvt_gray p = (case p of (b, g, r) \<Rightarrow>
     of_nat ((unat r * 4899 + unat g * 9617 + unat b * 1868 + 8192) div 16384))"

text \<open>
  \<open>cv2.subtract\<close> on two byte arrays of one shape: the difference of each pair of
  elements, saturated at 0. Arrays of different shapes are refused.
\<close>

definition sat_sub :: "8 word \<Rightarrow> 8 word \<Rightarrow> 8 word" where
  "sat_sub x y = (if y \<le> x then x - y else 0)"

definition subtract :: "8 word image \<Rightarrow> 8 word image \<Rightarrow> error + 8 word image" where
  "subtract a b =
     (if rows a = rows b \<and> cols a = cols b \<and> length (pix a) = length (pix b)
      then Inr \<lparr>rows = rows a, cols = cols a, pix = map2 sat_sub (pix a) (pix b)\<rparr>
      else Inl CvError)"

text \<open>
  \<open>np.sum\<close> of a byte array adds the elements in a 64-bit accumulator, which an array
  of fewer than \<open>2 ^ 56\<close> elements cannot overflow: the sum is an integer here.
\<close>

definition np_sum :: "8 word image \<Rightarrow> int" where
  "np_sum a = sum_list (map uint (pix a))"

text \<open>Python's \<open>int\<close> of a number: truncation towards zero.\<close>

definition py_int :: "rat \<Rightarrow> int" where
  "py_int q = (if 0 \<le> q then \<lfloor>q\<rfloor> else \<lceil>q\<rceil>)"

text \<open>
  \<open>framediff\<close>. Lines 133 and 134 convert the two frames, in this order, and either
  call can fail. Line 138 is \<open>int(diff/((h/2)*(w/2)))\<close> with Python's true division:
  \<open>h/2\<close> and \<open>w/2\<close> are halves, not integer halves. The quotient is a rational number
  here; the floating-point quotient of the source has the same integer part for every
  frame of fewer than \<open>2 ^ 43\<close> pixels. Nothing in the function checks the
  normalizer: on a normalizer of 0 the quotient is not a number and the statement
  fails.
\<close>

definition framediff :: "(bgr \<Rightarrow> 8 word) \<Rightarrow> frame \<Rightarrow> frame \<Rightarrow> error + int" where
  "framediff gray frame1 frame2 =
     (case cvtColor gray frame1 of
        Inl e \<Rightarrow> Inl e
      | Inr g1 \<Rightarrow>
          (case cvtColor gray frame2 of
             Inl e \<Rightarrow> Inl e
           | Inr g2 \<Rightarrow>
               (case subtract g1 g2 of
                  Inl e \<Rightarrow> Inl e
                | Inr diff \<Rightarrow>
                    (let h = rows g1; w = cols g1;
                         d = np_sum diff;
                         n = (of_nat h / 2) * (of_nat w / 2)
                     in if n = 0 then Inl DivisionFault
                        else Inr (py_int (of_int d / n))))))"

text \<open>The array line 135 computes from two frames of one shape.\<close>

definition diff_image :: "(bgr \<Rightarrow> 8 word) \<Rightarrow> frame \<Rightarrow> frame \<Rightarrow> 8 word image" where
  "diff_image gray frame1 frame2 =
     \<lparr>rows = rows frame1, cols = cols frame1,
      pix = map2 sat_sub (map gray (pix frame1)) (map gray (pix frame2))\<rparr>"

text \<open>Frames of one grey level, for the concrete runs.\<close>

definition solid4 :: "8 word \<Rightarrow> frame" where
  "solid4 v = \<lparr>rows = 2, cols = 2, pix = [(v, v, v), (v, v, v), (v, v, v), (v, v, v)]\<rparr>"

definition black :: frame where "black = solid4 0"
definition grey :: frame where "grey = solid4 100"
definition white :: frame where "white = solid4 255"

definition ones32 :: frame where
  "ones32 = \<lparr>rows = 3, cols = 2,
     pix = [(1, 1, 1), (1, 1, 1), (1, 1, 1), (1, 1, 1), (1, 1, 1), (1, 1, 1)]\<rparr>"

definition zeros32 :: frame where
  "zeros32 = \<lparr>rows = 3, cols = 2,
     pix = [(0, 0, 0), (0, 0, 0), (0, 0, 0), (0, 0, 0), (0, 0, 0), (0, 0, 0)]\<rparr>"

definition no_rows :: frame where
  "no_rows = \<lparr>rows = 0, cols = 2, pix = []\<rparr>"



text \<open>
  The score as the specification words it: the summed difference divided, with integer
  division, by the product of the integer halves of height and width.
\<close>

definition spec_score :: "(bgr \<Rightarrow> 8 word) \<Rightarrow> frame \<Rightarrow> frame \<Rightarrow> error + int" where
  "spec_score gray frame1 frame2 =
     (case cvtColor gray frame1 of
        Inl e \<Rightarrow> Inl e
      | Inr g1 \<Rightarrow>
          (case cvtColor gray frame2 of
             Inl e \<Rightarrow> Inl e
           | Inr g2 \<Rightarrow>
               (case subtract g1 g2 of
                  Inl e \<Rightarrow> Inl e
                | Inr diff \<Rightarrow>
                    (let n = int (rows g1 div 2) * int (cols g1 div 2)
                     in if n = 0 then Inl DivisionFault else Inr (np_sum diff div n)))))"

section \<open>Configuration and state (lines 61-89, 91-108, 179-183)\<close>

text \<open>
  The module-level settings are Python integers. \<open>logging\<close> and \<open>diskcheck\<close> are the
  two flags the start-up code derives from the log file and the disk probe.
\<close>

record cfg =
  maxframes :: int
  threshold :: int
  thresholdframes :: int
  maxsavedframes :: int
  minfreespace :: int
  logging :: bool
  diskcheck :: bool

text \<open>Lines 182-183: a \<open>thresholdframes\<close> below 1 becomes 1.\<close>

definition clamp_cfg :: "cfg \<Rightarrow> cfg" where
  "clamp_cfg c = (if thresholdframes c < 1 then c\<lparr>thresholdframes := 1\<rparr> else c)"

text \<open>
  What the program prints and logs, without the timestamps. \<open>printed\<close> is standard
  output, \<open>logged\<close> the log file, \<open>written\<close> the video files, each a list of frames.
\<close>

datatype event = StartedRecording | StoppedRecording | FramesSaved nat

record state =
  recording :: bool
  savedframes :: "frame list"
  quietlen :: int
  framebuffer :: "frame list"
  cooldown :: int
  thresholdframecount :: int
  printed :: "event list"
  logged :: "event list"
  written :: "frame list list"

text \<open>
  Lines 86-89, 116-123 and 179-180: the state before the first tick, where \<open>fs\<close> are the
  frames the camera delivers; the loop of line 117 reads \<open>maxframes\<close> of them.
\<close>

definition init_state :: "cfg \<Rightarrow> frame list \<Rightarrow> state" where
  "init_state c fs =
     \<lparr>recording = False, savedframes = [], quietlen = 0,
      framebuffer = take (nat (maxframes c)) fs,
      cooldown = maxframes c, thresholdframecount = 0,
      printed = [], logged = [], written = []\<rparr>"

text \<open>Python's \<open>xs[i]\<close>: a negative index counts from the end, any other miss raises.\<close>

definition py_index :: "'a list \<Rightarrow> int \<Rightarrow> 'a option" where
  "py_index xs i =
     (if 0 \<le> i \<and> i < int (length xs) then Some (xs ! nat i)
      else if i < 0 \<and> - int (length xs) \<le> i then Some (xs ! nat (int (length xs) + i))
      else None)"

text \<open>\<open>logwrite\<close> when logging is on, then \<open>print\<close>.\<close>

definition emit :: "cfg \<Rightarrow> event \<Rightarrow> state \<Rightarrow> state" where
  "emit c e s =
     s\<lparr>logged := (if logging c then logged s @ [e] else logged s),
       printed := printed s @ [e]\<rparr>"

section \<open>Saving (lines 142-175)\<close>

text \<open>
  \<open>savetofile\<close>, with \<open>free\<close> the free bytes \<open>shutil.disk_usage\<close> reports at the
  call. Below the minimum the process exits with status 1. Otherwise line 158 reads
  \<open>savedframes[0]\<close>, which raises on an empty list, and the frames go to one file.
\<close>

definition writable :: "cfg \<Rightarrow> int \<Rightarrow> bool" where
  "writable c free \<longleftrightarrow>
     \<not> (diskcheck c \<and> ((free div 1024) div 1024) div 1024 < minfreespace c)"

definition savetofile :: "cfg \<Rightarrow> int \<Rightarrow> state \<Rightarrow> error + state" where
  "savetofile c free s =
     (if diskcheck c \<and> \<not> writable c free then Inl SystemExit1
      else (case savedframes s of
              [] \<Rightarrow> Inl IndexError
            | first # rest \<Rightarrow>
                Inr ((emit c (FramesSaved (length (savedframes s)))
                       (s\<lparr>written := written s @ [savedframes s]\<rparr>))
                     \<lparr>savedframes := []\<rparr>)))"

text \<open>
  \<open>signal_handler\<close>: save, release the camera, exit with status 0. \<open>Inr\<close> is the state
  the process ends in when it gets that far.
\<close>

definition signal_handler :: "cfg \<Rightarrow> int \<Rightarrow> state \<Rightarrow> error + state" where
  "signal_handler c free s =
     (case savetofile c free s of Inl e \<Rightarrow> Inl e | Inr s' \<Rightarrow> Inr s')"

section \<open>One iteration of the main loop (lines 187-230)\<close>

text \<open>
  Every call of \<open>framediff\<close> in the loop body (lines 194, 196, 210 and 213) has the
  arguments \<open>frame\<close> and \<open>framebuffer[maxframes-1]\<close>, and nothing changes either before
  line 226. Whatever the state, the first of these calls that is evaluated comes
  before any assignment, so the body either fails there or sees one score \<open>d\<close>.
\<close>

definition tick_score :: "(bgr \<Rightarrow> 8 word) \<Rightarrow> cfg \<Rightarrow> frame \<Rightarrow> state \<Rightarrow> error + int" where
  "tick_score gray c frame s =
     (case py_index (framebuffer s) (maxframes c - 1) of
        None \<Rightarrow> Inl IndexError
      | Some base \<Rightarrow> framediff gray frame base)"

text \<open>Lines 194-197.\<close>

definition threshold_rule :: "cfg \<Rightarrow> int \<Rightarrow> state \<Rightarrow> state" where
  "threshold_rule c d s =
     (if \<not> recording s \<and> thresholdframecount s < thresholdframes c \<and> d \<ge> threshold c
      then s\<lparr>thresholdframecount := thresholdframecount s + 1\<rparr>
      else if \<not> recording s \<and> d < threshold c
      then s\<lparr>thresholdframecount := 0\<rparr>
      else s)"

text \<open>Lines 199-205.\<close>

definition start_guard :: "cfg \<Rightarrow> state \<Rightarrow> bool" where
  "start_guard c s \<longleftrightarrow>
     \<not> recording s \<and> cooldown s \<ge> maxframes c \<and> thresholdframecount s \<ge> thresholdframes c"

definition start_rule :: "cfg \<Rightarrow> state \<Rightarrow> state" where
  "start_rule c s =
     (if start_guard c s
      then (emit c StartedRecording s)
             \<lparr>savedframes := savedframes s @ framebuffer s,
              thresholdframecount := 0,
              recording := True\<rparr>
      else s)"

text \<open>Lines 207-208.\<close>

definition append_rule :: "cfg \<Rightarrow> frame \<Rightarrow> state \<Rightarrow> state" where
  "append_rule c frame s =
     (if recording s \<and> quietlen s < maxframes c
      then s\<lparr>savedframes := savedframes s @ [frame]\<rparr>
      else s)"

text \<open>Lines 210-214.\<close>

definition quiet_rule :: "cfg \<Rightarrow> int \<Rightarrow> state \<Rightarrow> state" where
  "quiet_rule c d s =
     (if recording s \<and> d \<ge> threshold c \<and> quietlen s > 0
      then s\<lparr>quietlen := 0\<rparr>
      else if recording s \<and> d < threshold c
      then s\<lparr>quietlen := quietlen s + 1\<rparr>
      else s)"

text \<open>Lines 216-221.\<close>

definition stop_guard :: "cfg \<Rightarrow> state \<Rightarrow> bool" where
  "stop_guard c s \<longleftrightarrow> quietlen s > maxframes c - 1 \<and> recording s"

definition stop_rule :: "cfg \<Rightarrow> state \<Rightarrow> state" where
  "stop_rule c s =
     (if stop_guard c s
      then (emit c StoppedRecording s)\<lparr>recording := False, cooldown := 0\<rparr>
      else s)"

text \<open>Lines 222-223.\<close>

definition cooldown_rule :: "cfg \<Rightarrow> state \<Rightarrow> state" where
  "cooldown_rule c s =
     (if \<not> recording s \<and> cooldown s < maxframes c
      then s\<lparr>cooldown := cooldown s + 1\<rparr>
      else s)"

text \<open>The state after line 205, after line 221 and after line 223.\<close>

definition upto_start :: "cfg \<Rightarrow> int \<Rightarrow> state \<Rightarrow> state" where
  "upto_start c d s = start_rule c (threshold_rule c d s)"

definition upto_stop :: "cfg \<Rightarrow> int \<Rightarrow> frame \<Rightarrow> state \<Rightarrow> state" where
  "upto_stop c d frame s =
     stop_rule c (quiet_rule c d (append_rule c frame (upto_start c d s)))"

definition rules :: "cfg \<Rightarrow> int \<Rightarrow> frame \<Rightarrow> state \<Rightarrow> state" where
  "rules c d frame s = cooldown_rule c (upto_stop c d frame s)"

text \<open>Whether the start, or the stop, is taken on a tick with score \<open>d\<close>.\<close>

definition start_fires :: "cfg \<Rightarrow> int \<Rightarrow> state \<Rightarrow> bool" where
  "start_fires c d s \<longleftrightarrow> start_guard c (threshold_rule c d s)"

definition stop_fires :: "cfg \<Rightarrow> int \<Rightarrow> frame \<Rightarrow> state \<Rightarrow> bool" where
  "stop_fires c d frame s \<longleftrightarrow>
     stop_guard c (quiet_rule c d (append_rule c frame (upto_start c d s)))"

text \<open>Lines 226-227: \<open>pop(0)\<close> raises on an empty list.\<close>

definition rotate_buffer :: "frame \<Rightarrow> state \<Rightarrow> error + state" where
  "rotate_buffer frame s =
     (case framebuffer s of
        [] \<Rightarrow> Inl IndexError
      | oldest # rest \<Rightarrow> Inr (s\<lparr>framebuffer := rest @ [frame]\<rparr>))"

text \<open>Lines 188-227, and the whole body with the size check of lines 229-230.\<close>

definition step :: "(bgr \<Rightarrow> 8 word) \<Rightarrow> cfg \<Rightarrow> frame \<Rightarrow> state \<Rightarrow> error + state" where
  "step gray c frame s =
     (case tick_score gray c frame s of
        Inl e \<Rightarrow> Inl e
      | Inr d \<Rightarrow> rotate_buffer frame (rules c d frame s))"

definition flush_guard :: "cfg \<Rightarrow> state \<Rightarrow> bool" where
  "flush_guard c s \<longleftrightarrow> int (length (savedframes s)) > maxsavedframes c - 1"

definition tick :: "(bgr \<Rightarrow> 8 word) \<Rightarrow> cfg \<Rightarrow> frame \<Rightarrow> int \<Rightarrow> state \<Rightarrow> error + state" where
  "tick gray c frame free s =
     (case step gray c frame s of
        Inl e \<Rightarrow> Inl e
      | Inr s1 \<Rightarrow> if flush_guard c s1 then savetofile c free s1 else Inr s1)"

text \<open>
  Finitely many iterations of \<open>while True\<close>, one per camera frame, each with the free
  disk space of that moment; and the scores those iterations see.
\<close>

fun run :: "(bgr \<Rightarrow> 8 word) \<Rightarrow> cfg \<Rightarrow> (frame \<times> int) list \<Rightarrow> state \<Rightarrow> error + state" where
  "run gray c [] s = Inr s"
| "run gray c ((frame, free) # xs) s =
     (case tick gray c frame free s of
        Inl e \<Rightarrow> Inl e
      | Inr s' \<Rightarrow> run gray c xs s')"



text \<open>
  What holds of the quiet counter between ticks: it is never negative, it is below
  \<open>maxframes\<close> while a recording runs, and once a recording has stopped it rests at
  \<open>maxframes\<close> until the next one.
\<close>

definition quiet_inv :: "cfg \<Rightarrow> state \<Rightarrow> bool" where
  "quiet_inv c s \<longleftrightarrow>
     0 \<le> quietlen s
     \<and> (recording s \<longrightarrow> quietlen s < maxframes c)
     \<and> (\<not> recording s \<and> StoppedRecording \<in> set (printed s) \<longrightarrow> quietlen s = maxframes c)"


text \<open>The states the program passes through between ticks.\<close>

inductive reachable :: "(bgr \<Rightarrow> 8 word) \<Rightarrow> cfg \<Rightarrow> state \<Rightarrow> bool"
  for gray :: "bgr \<Rightarrow> 8 word" and c :: cfg where
  reach_init: "int (length fs) \<ge> maxframes c \<Longrightarrow> reachable gray c (init_state c fs)"
| reach_tick: "reachable gray c s \<Longrightarrow> tick gray c frame free s = Inr s'
               \<Longrightarrow> reachable gray c s'"

text \<open>The settings of the concrete runs: a ring of one frame, or of two.\<close>

definition cfg1 :: cfg where
  "cfg1 = \<lparr>maxframes = 1, threshold = 15, thresholdframes = 1, maxsavedframes = 1000,
           minfreespace = 1, logging = True, diskcheck = True\<rparr>"

definition cfg2 :: cfg where
  "cfg2 = cfg1\<lparr>maxframes := 2\<rparr>"


text \<open>Ten gigabytes of free space.\<close>

definition roomy :: int where
  "roomy = 10737418240"

definition cfg_small :: cfg where
  "cfg_small = cfg1\<lparr>maxsavedframes := 2\<rparr>"

text \<open>
  The states of a first recording under \<open>cfg1\<close>, from a ring holding a black frame:
  after one tick of motion, and after the quiet tick that stops it. The three recorded
  frames are still in memory then.
\<close>

definition in_first :: state where
  "in_first =
     \<lparr>recording = True, savedframes = [black, grey], quietlen = 0,
      framebuffer = [grey], cooldown = 1, thresholdframecount = 0,
      printed = [StartedRecording], logged = [StartedRecording], written = []\<rparr>"

definition after_first :: state where
  "after_first =
     \<lparr>recording = False, savedframes = [black, grey, grey], quietlen = 1,
      framebuffer = [grey], cooldown = 1, thresholdframecount = 0,
      printed = [StartedRecording, StoppedRecording],
      logged = [StartedRecording, StoppedRecording], written = []\<rparr>"

section \<open>Evaluating the concrete frames\<close>

lemma cvt_gray_0: "cvt_gray (0, 0, 0) = 0"
  by (simp add: cvt_gray_def)

lemma cvt_gray_1: "cvt_gray (1, 1, 1) = 1"
  by (simp add: cvt_gray_def)

lemma cvt_gray_100: "cvt_gray (100, 100, 100) = 100"
  by (simp add: cvt_gray_def)

lemma cvt_gray_255: "cvt_gray (255, 255, 255) = 255"
  by (simp add: cvt_gray_def)

lemmas fd_eval = framediff_def cvtColor_def subtract_def np_sum_def py_int_def sat_sub_def
  solid4_def black_def grey_def white_def cvt_gray_0 cvt_gray_1 cvt_gray_100 cvt_gray_255
  Let_def

lemma fd_white_black: "framediff cvt_gray white black = Inr 1020"
  by (simp add: fd_eval)


lemma fd_grey_black: "framediff cvt_gray grey black = Inr 400"
  by (simp add: fd_eval)

lemma fd_grey_grey: "framediff cvt_gray grey grey = Inr 0"
  by (simp add: fd_eval)

lemma fd_white_grey: "framediff cvt_gray white grey = Inr 620"
  by (simp add: fd_eval)

lemma fd_white_white: "framediff cvt_gray white white = Inr 0"
  by (simp add: fd_eval)

lemma wf_solid4: "wf_image (solid4 v)" "rows (solid4 v) = 2" "cols (solid4 v) = 2"
  by (simp_all add: wf_image_def solid4_def)

lemma shape_facts:
  "wf_image black" "wf_image grey" "wf_image white"
  "rows black = 2" "rows grey = 2" "rows white = 2"
  "cols black = 2" "cols grey = 2" "cols white = 2"
  by (simp_all add: black_def grey_def white_def wf_solid4)

section \<open>The frame difference\<close>


lemma py_int_quot:
  assumes "0 \<le> d" "0 < h" "0 < w"
  shows "py_int (of_int d / ((of_nat h / 2) * (of_nat w / 2))) = (4 * d) div (int h * int w)"
proof -
  have "(of_int d :: rat) / ((of_nat h / 2) * (of_nat w / 2))
        = of_int (4 * d) / of_int (int h * int w)"
    by simp
  moreover have "(0::rat) \<le> of_int (4 * d) / of_int (int h * int w)"
    using assms by simp
  ultimately show ?thesis
    by (simp only: py_int_def if_True floor_divide_of_int_eq)
qed

lemma np_sum_nonneg: "0 \<le> np_sum a"
  by (auto simp: np_sum_def intro!: sum_list_nonneg)

lemma cvtColor_Inr:
  assumes "0 < rows a" "0 < cols a"
  shows "cvtColor gray a = Inr \<lparr>rows = rows a, cols = cols a, pix = map gray (pix a)\<rparr>"
  using assms by (simp add: cvtColor_def)

lemma subtract_frames:
  assumes "wf_image a" "wf_image b" "same_shape a b"
  shows "subtract \<lparr>rows = rows a, cols = cols a, pix = map gray (pix a)\<rparr>
           \<lparr>rows = rows b, cols = cols b, pix = map gray (pix b)\<rparr>
         = Inr (diff_image gray a b)"
  using assms by (simp add: subtract_def diff_image_def wf_image_def same_shape_def)

lemma gray_frames:
  assumes "same_shape a b" "0 < rows a" "0 < cols a"
  shows "cvtColor gray a = Inr \<lparr>rows = rows a, cols = cols a, pix = map gray (pix a)\<rparr>"
    "cvtColor gray b = Inr \<lparr>rows = rows b, cols = cols b, pix = map gray (pix b)\<rparr>"
  using assms by (simp_all add: cvtColor_def same_shape_def)

lemma framediff_quotient:
  assumes "wf_image a" "wf_image b" "same_shape a b" "0 < rows a" "0 < cols a"
  shows "framediff gray a b
         = Inr ((4 * np_sum (diff_image gray a b)) div (int (rows a) * int (cols a)))"
proof -
  have n: "(rat_of_nat (rows a) / 2) * (rat_of_nat (cols a) / 2) \<noteq> 0"
    using assms(4,5) by simp
  note q = py_int_quot [OF np_sum_nonneg assms(4,5), of "diff_image gray a b"]
  show ?thesis
    unfolding framediff_def Let_def gray_frames [OF assms(3-5)] sum.case
      subtract_frames [OF assms(1-3)] image.select_convs
    by (simp only: n q if_False)
qed







text \<open>
  C9, as stated: for frames of one shape with \<open>h > 0\<close> and \<open>w > 0\<close> the score is the
  summed difference divided, with integer division, by the product of the integer
  halves of \<open>h\<close> and \<open>w\<close>. It fails where a side is odd: on frames of 3 rows and
  2 columns with summed difference 6, line 138 divides by \<open>1.5 * 1.0\<close> and returns 4,
  the integer halves give 6.
\<close>

theorem framediff_integer_halves_counterexample:
  "wf_image ones32 \<and> wf_image zeros32 \<and> same_shape ones32 zeros32
   \<and> 0 < rows ones32 \<and> 0 < cols ones32
   \<and> framediff cvt_gray ones32 zeros32 = Inr 4
   \<and> spec_score cvt_gray ones32 zeros32 = Inr 6"
  by (simp add: fd_eval ones32_def zeros32_def spec_score_def wf_image_def same_shape_def)

text \<open>
  C9, amended: for frames of one shape with \<open>h > 0\<close> and \<open>w > 0\<close> the score is the
  summed difference divided by \<open>(h/2) * (w/2)\<close> with exact halves and then truncated,
  that is, four times the sum divided by \<open>h * w\<close> with integer division; where \<open>h\<close>
  and \<open>w\<close> are both even this is the integer division by the product of the integer
  halves.
\<close>

theorem framediff_true_division:
  assumes "wf_image a" "wf_image b" "same_shape a b" "0 < rows a" "0 < cols a"
  shows "framediff gray a b
           = Inr ((4 * np_sum (diff_image gray a b)) div (int (rows a) * int (cols a)))
       \<and> (even (rows a) \<and> even (cols a) \<longrightarrow> framediff gray a b = spec_score gray a b)"
proof -
  have "framediff gray a b = spec_score gray a b" if ev: "even (rows a)" "even (cols a)"
  proof -
    obtain h w where hw: "rows a = 2 * h" "cols a = 2 * w"
      using ev by (auto elim!: evenE)
    then have pos: "0 < h" "0 < w"
      using assms(4,5) by simp_all
    have "(4 * np_sum (diff_image gray a b)) div (int (rows a) * int (cols a))
          = (4 * np_sum (diff_image gray a b)) div (4 * (int h * int w))"
      by (simp add: hw mult.assoc mult.left_commute)
    also have "\<dots> = np_sum (diff_image gray a b) div (int h * int w)"
      by simp
    finally have fd: "framediff gray a b = Inr (np_sum (diff_image gray a b) div (int h * int w))"
      by (simp add: framediff_quotient [OF assms])
    have "spec_score gray a b =
            (let n = int (rows a div 2) * int (cols a div 2)
             in if n = 0 then Inl DivisionFault
                else Inr (np_sum (diff_image gray a b) div n))"
      by (simp only: spec_score_def gray_frames [OF assms(3-5)] sum.case
          subtract_frames [OF assms(1-3)] image.select_convs)
    with pos have "spec_score gray a b = Inr (np_sum (diff_image gray a b) div (int h * int w))"
      by (simp add: hw)
    with fd show ?thesis
      by simp
  qed
  then show ?thesis
    by (simp add: framediff_quotient [OF assms])
qed

theorem framediff_true_division_witness:
  "wf_image white \<and> wf_image black \<and> same_shape white black
   \<and> 0 < rows white \<and> 0 < cols white \<and> even (rows white) \<and> even (cols white)
   \<and> framediff cvt_gray white black = Inr 1020
   \<and> spec_score cvt_gray white black = Inr 1020"
proof -
  have h: "wf_image white" "wf_image black" "same_shape white black"
    "0 < rows white" "0 < cols white"
    by (simp_all add: shape_facts same_shape_def)
  have e: "even (rows white)" "even (cols white)"
    by (simp_all add: shape_facts)
  from framediff_true_division [OF h, of cvt_gray] e
  have "framediff cvt_gray white black = spec_score cvt_gray white black"
    by blast
  then have "spec_score cvt_gray white black = Inr 1020"
    by (simp only: fd_white_black)
  with h e show ?thesis
    by (simp only: fd_white_black simp_thms)
qed

text \<open>The division of line 138 is out of reach of a frame without area.\<close>

lemma framediff_no_division_fault: "framediff gray a b \<noteq> Inl DivisionFault"
  by (auto simp: framediff_def cvtColor_def subtract_def Let_def split: if_splits sum.splits)

text \<open>
  C4, as stated: a frame of height 0 or width 0 makes the operation fail with an
  \<open>InvalidFrameError\<close> before the division. The failure is another one: \<open>framediff\<close>
  has no check of its own and no such error exists in the program. What stops a frame
  of shape \<open>(0, 2)\<close> is \<open>cv2.cvtColor\<close> in line 133, with the library's \<open>cv2.error\<close>.
\<close>

theorem framediff_zero_area_counterexample:
  "wf_image no_rows \<and> rows no_rows = 0
   \<and> framediff cvt_gray no_rows white = Inl CvError
   \<and> framediff cvt_gray no_rows white \<noteq> Inl InvalidFrameError"
  by (simp add: framediff_def cvtColor_def no_rows_def wf_image_def)

text \<open>
  C4, amended: when a frame of height 0 or width 0 is passed to \<open>framediff\<close>, as
  either argument, the operation fails with the \<open>cv2.error\<close> of the conversion in
  line 133 or 134, not with an \<open>InvalidFrameError\<close>, and never reaches the division:
  no division fault is raised.
\<close>

theorem framediff_zero_area:
  assumes "rows a = 0 \<or> cols a = 0 \<or> rows b = 0 \<or> cols b = 0"
  shows "framediff gray a b = Inl CvError
       \<and> (cvtColor gray a = Inl CvError \<or> cvtColor gray b = Inl CvError)
       \<and> framediff gray a b \<noteq> Inl DivisionFault
       \<and> framediff gray a b \<noteq> Inl InvalidFrameError"
proof -
  from assms have c: "cvtColor gray a = Inl CvError \<or> cvtColor gray b = Inl CvError"
    by (auto simp: cvtColor_def)
  from assms have "framediff gray a b = Inl CvError"
    by (auto simp: framediff_def cvtColor_def)
  with c show ?thesis by simp
qed

theorem framediff_zero_area_witness:
  "(rows white = 0 \<or> cols white = 0 \<or> rows no_rows = 0 \<or> cols no_rows = 0)
   \<and> cvtColor cvt_gray white \<noteq> Inl CvError
   \<and> cvtColor cvt_gray no_rows = Inl CvError
   \<and> framediff cvt_gray white no_rows = Inl CvError
   \<and> framediff cvt_gray white no_rows \<noteq> Inl DivisionFault
   \<and> framediff cvt_gray white no_rows \<noteq> Inl InvalidFrameError"
proof -
  have h: "rows white = 0 \<or> cols white = 0 \<or> rows no_rows = 0 \<or> cols no_rows = 0"
    by (simp add: no_rows_def)
  have w: "cvtColor cvt_gray white \<noteq> Inl CvError"
    by (simp add: cvtColor_def shape_facts)
  from framediff_zero_area [OF h, of cvt_gray] w h show ?thesis
    by simp
qed

section \<open>The rules of the loop body, field by field\<close>

lemma threshold_rule_fields:
  "recording (threshold_rule c d s) = recording s"
  "savedframes (threshold_rule c d s) = savedframes s"
  "quietlen (threshold_rule c d s) = quietlen s"
  "framebuffer (threshold_rule c d s) = framebuffer s"
  "cooldown (threshold_rule c d s) = cooldown s"
  "printed (threshold_rule c d s) = printed s"
  "written (threshold_rule c d s) = written s"
  "thresholdframecount (threshold_rule c d s) =
     (if \<not> recording s \<and> thresholdframecount s < thresholdframes c \<and> threshold c \<le> d
      then thresholdframecount s + 1
      else if \<not> recording s \<and> d < threshold c then 0
      else thresholdframecount s)"
  by (simp_all add: threshold_rule_def)

lemma start_rule_fields:
  "recording (start_rule c s) = (recording s \<or> start_guard c s)"
  "savedframes (start_rule c s) =
     (if start_guard c s then savedframes s @ framebuffer s else savedframes s)"
  "quietlen (start_rule c s) = quietlen s"
  "framebuffer (start_rule c s) = framebuffer s"
  "cooldown (start_rule c s) = cooldown s"
  "printed (start_rule c s) =
     (if start_guard c s then printed s @ [StartedRecording] else printed s)"
  "written (start_rule c s) = written s"
  "thresholdframecount (start_rule c s) =
     (if start_guard c s then 0 else thresholdframecount s)"
  by (auto simp: start_rule_def emit_def)

lemma append_rule_fields:
  "recording (append_rule c f s) = recording s"
  "savedframes (append_rule c f s) =
     (if recording s \<and> quietlen s < maxframes c then savedframes s @ [f] else savedframes s)"
  "quietlen (append_rule c f s) = quietlen s"
  "framebuffer (append_rule c f s) = framebuffer s"
  "cooldown (append_rule c f s) = cooldown s"
  "printed (append_rule c f s) = printed s"
  "written (append_rule c f s) = written s"
  "thresholdframecount (append_rule c f s) = thresholdframecount s"
  by (simp_all add: append_rule_def)

lemma quiet_rule_fields:
  "recording (quiet_rule c d s) = recording s"
  "savedframes (quiet_rule c d s) = savedframes s"
  "quietlen (quiet_rule c d s) =
     (if recording s \<and> threshold c \<le> d \<and> 0 < quietlen s then 0
      else if recording s \<and> d < threshold c then quietlen s + 1
      else quietlen s)"
  "framebuffer (quiet_rule c d s) = framebuffer s"
  "cooldown (quiet_rule c d s) = cooldown s"
  "printed (quiet_rule c d s) = printed s"
  "written (quiet_rule c d s) = written s"
  "thresholdframecount (quiet_rule c d s) = thresholdframecount s"
  by (simp_all add: quiet_rule_def)

lemma stop_rule_fields:
  "recording (stop_rule c s) = (recording s \<and> \<not> stop_guard c s)"
  "savedframes (stop_rule c s) = savedframes s"
  "quietlen (stop_rule c s) = quietlen s"
  "framebuffer (stop_rule c s) = framebuffer s"
  "cooldown (stop_rule c s) = (if stop_guard c s then 0 else cooldown s)"
  "printed (stop_rule c s) =
     (if stop_guard c s then printed s @ [StoppedRecording] else printed s)"
  "written (stop_rule c s) = written s"
  "thresholdframecount (stop_rule c s) = thresholdframecount s"
  by (auto simp: stop_rule_def emit_def)

lemma cooldown_rule_fields:
  "recording (cooldown_rule c s) = recording s"
  "savedframes (cooldown_rule c s) = savedframes s"
  "quietlen (cooldown_rule c s) = quietlen s"
  "framebuffer (cooldown_rule c s) = framebuffer s"
  "cooldown (cooldown_rule c s) =
     (if \<not> recording s \<and> cooldown s < maxframes c then cooldown s + 1 else cooldown s)"
  "printed (cooldown_rule c s) = printed s"
  "written (cooldown_rule c s) = written s"
  "thresholdframecount (cooldown_rule c s) = thresholdframecount s"
  by (simp_all add: cooldown_rule_def)

lemmas rule_fields = threshold_rule_fields start_rule_fields append_rule_fields
  quiet_rule_fields stop_rule_fields cooldown_rule_fields

lemmas rule_defs = rules_def upto_stop_def upto_start_def start_fires_def stop_fires_def
  start_guard_def stop_guard_def rule_fields

lemma rules_framebuffer: "framebuffer (rules c d f s) = framebuffer s"
  by (simp add: rule_defs)

lemma rules_quiet_inv:
  assumes "1 \<le> maxframes c" "1 \<le> thresholdframes c" "quiet_inv c s"
  shows "quiet_inv c (rules c d f s)"
  using assms by (auto simp: quiet_inv_def rule_defs)

section \<open>Successful ticks and reachable states\<close>

lemmas tick_defs = tick_def step_def tick_score_def py_index_def rotate_buffer_def
  flush_guard_def savetofile_def writable_def

lemma frames_distinct: "black \<noteq> grey" "grey \<noteq> white" "black \<noteq> white"
  by (simp_all add: black_def grey_def white_def solid4_def)

lemma savetofile_Inr:
  assumes "savetofile c fr s1 = Inr s'"
  shows "recording s' = recording s1" "quietlen s' = quietlen s1" "cooldown s' = cooldown s1"
    "thresholdframecount s' = thresholdframecount s1" "framebuffer s' = framebuffer s1"
    "printed s' = printed s1 @ [FramesSaved (length (savedframes s1))]"
  using assms by (auto simp: savetofile_def emit_def split: if_splits list.splits)

lemma step_Inr:
  assumes "step gray c f s = Inr s1"
  shows "\<exists>d. tick_score gray c f s = Inr d
           \<and> s1 = (rules c d f s)\<lparr>framebuffer := tl (framebuffer s) @ [f]\<rparr>
           \<and> framebuffer s \<noteq> []"
  using assms
  by (auto simp: step_def rotate_buffer_def rules_framebuffer split: sum.splits list.splits)

lemma tick_Inr:
  assumes "tick gray c f fr s = Inr s'"
  shows "\<exists>d. tick_score gray c f s = Inr d
           \<and> recording s' = recording (rules c d f s)
           \<and> quietlen s' = quietlen (rules c d f s)
           \<and> cooldown s' = cooldown (rules c d f s)
           \<and> thresholdframecount s' = thresholdframecount (rules c d f s)
           \<and> framebuffer s' = tl (framebuffer s) @ [f]
           \<and> framebuffer s \<noteq> []
           \<and> (StoppedRecording \<in> set (printed s')
                \<longleftrightarrow> StoppedRecording \<in> set (printed (rules c d f s)))"
proof -
  from assms obtain s1 where s1: "step gray c f s = Inr s1"
    and s': "s' = s1 \<or> savetofile c fr s1 = Inr s'"
    by (auto simp: tick_def split: sum.splits if_splits)
  from step_Inr [OF s1] obtain d where d: "tick_score gray c f s = Inr d"
    "s1 = (rules c d f s)\<lparr>framebuffer := tl (framebuffer s) @ [f]\<rparr>" "framebuffer s \<noteq> []"
    by blast
  from s' show ?thesis
  proof
    assume "s' = s1"
    with d show ?thesis by simp
  next
    assume "savetofile c fr s1 = Inr s'"
    from savetofile_Inr [OF this] d show ?thesis by simp
  qed
qed

lemma reachable_buffer_length:
  assumes "reachable gray c s"
  shows "length (framebuffer s) = nat (maxframes c)"
  using assms
proof (induction rule: reachable.induct)
  case (reach_init fs)
  then show ?case by (simp add: init_state_def)
next
  case (reach_tick s frame free s')
  from tick_Inr [OF reach_tick.hyps(2)]
  have fb: "framebuffer s' = tl (framebuffer s) @ [frame]" "framebuffer s \<noteq> []"
    by blast+
  then have "length (framebuffer s') = length (framebuffer s)"
    by (cases "framebuffer s") simp_all
  with reach_tick.IH show ?case
    by simp
qed

lemma py_index_last:
  assumes "int (length xs) = m" "1 \<le> m"
  shows "py_index xs (m - 1) = Some (last xs)"
proof -
  from assms have "xs \<noteq> []" by auto
  then have "xs ! (length xs - 1) = last xs"
    by (simp add: last_conv_nth)
  moreover have "nat (m - 1) = length xs - 1"
    using assms by simp
  ultimately show ?thesis
    using assms by (simp add: py_index_def)
qed

lemma reachable_quiet_inv:
  assumes "reachable gray c s" "1 \<le> maxframes c" "1 \<le> thresholdframes c"
  shows "quiet_inv c s"
  using assms(1)
proof (induction rule: reachable.induct)
  case (reach_init fs)
  show ?case by (simp add: quiet_inv_def init_state_def)
next
  case (reach_tick s frame free s')
  from tick_Inr [OF reach_tick.hyps(2)] obtain d where
    d: "recording s' = recording (rules c d frame s)"
       "quietlen s' = quietlen (rules c d frame s)"
       "StoppedRecording \<in> set (printed s')
          \<longleftrightarrow> StoppedRecording \<in> set (printed (rules c d frame s))"
    by blast
  from rules_quiet_inv [OF assms(2,3) reach_tick.IH, of d frame] d show ?case
    by (simp add: quiet_inv_def)
qed

text \<open>After lines 182-183 the setting is at least 1, as the theorems below assume.\<close>

lemma clamp_cfg_thresholdframes: "1 \<le> thresholdframes (clamp_cfg c)"
  by (simp add: clamp_cfg_def)

text \<open>
  With \<open>maxsavedframes\<close> at least 1, the size check of line 229 never calls
  \<open>savetofile\<close> on an empty list.
\<close>

lemma flush_guard_nonempty:
  assumes "1 \<le> maxsavedframes c" "flush_guard c s"
  shows "savedframes s \<noteq> []"
  using assms by (auto simp: flush_guard_def)

lemmas rule_eval = rules_def upto_stop_def upto_start_def start_fires_def stop_fires_def
  start_guard_def stop_guard_def emit_def start_rule_def stop_rule_def threshold_rule_def
  append_rule_def quiet_rule_def cooldown_rule_def

lemma tick_init:
  "tick cvt_gray cfg1 grey roomy (init_state cfg1 [black]) = Inr in_first"
  by (simp add: tick_defs rule_eval init_state_def cfg1_def in_first_def fd_grey_black)

lemma tick_in_first:
  "tick cvt_gray cfg1 grey roomy in_first = Inr after_first"
  by (simp add: tick_defs rule_eval cfg1_def in_first_def after_first_def fd_grey_grey)

lemma run_first:
  "run cvt_gray cfg1 [(grey, roomy), (grey, roomy)] (init_state cfg1 [black]) = Inr after_first"
  by (simp add: tick_init tick_in_first)

lemma reachable_init1: "reachable cvt_gray cfg1 (init_state cfg1 [black])"
  by (rule reach_init) (simp add: cfg1_def)

lemma reachable_in_first: "reachable cvt_gray cfg1 in_first"
  by (rule reach_tick [OF reachable_init1 tick_init])

lemma reachable_after_first: "reachable cvt_gray cfg1 after_first"
  by (rule reach_tick [OF reachable_in_first tick_in_first])

section \<open>The baseline, the pre-roll and saving\<close>

text \<open>
  C1, as stated: the second argument of every \<open>framediff\<close> call of the loop is the
  oldest buffered frame. It fails: the loop reads \<open>framebuffer[maxframes-1]\<close>, the end
  of the list, where line 227 appends, while line 226 removes the oldest frame from the
  front. With a ring of a black and then a white frame, a white frame scores 0, not
  the 1020 it scores against the oldest, black one.
\<close>

theorem baseline_oldest_counterexample:
  "reachable cvt_gray cfg2 (init_state cfg2 [black, white])
   \<and> framebuffer (init_state cfg2 [black, white]) = [black, white]
   \<and> tick_score cvt_gray cfg2 white (init_state cfg2 [black, white]) = Inr 0
   \<and> framediff cvt_gray white (hd (framebuffer (init_state cfg2 [black, white]))) = Inr 1020"
proof -
  have "reachable cvt_gray cfg2 (init_state cfg2 [black, white])"
    by (rule reach_init) (simp add: cfg2_def cfg1_def)
  then show ?thesis
    by (simp add: tick_defs init_state_def cfg2_def cfg1_def fd_white_white fd_white_black)
qed

text \<open>
  C1, amended: on every tick the score is \<open>framediff\<close> of the newest frame and
  \<open>framebuffer[maxframes-1]\<close>, the most recently buffered frame, which is the frame of
  the tick before; this baseline slides with every tick.
\<close>

theorem tick_score_previous_frame:
  assumes "reachable gray c s" "1 \<le> maxframes c"
  shows "tick_score gray c frame s = framediff gray frame (last (framebuffer s))
       \<and> (tick gray c frame free s = Inr s'
            \<longrightarrow> last (framebuffer s') = frame
              \<and> tick_score gray c frame' s' = framediff gray frame' frame)"
proof -
  have len: "int (length (framebuffer s)) = maxframes c"
    using reachable_buffer_length [OF assms(1)] assms(2) by simp
  have first: "tick_score gray c frame s = framediff gray frame (last (framebuffer s))"
    by (simp add: tick_score_def py_index_last [OF len assms(2)])
  have "last (framebuffer s') = frame
        \<and> tick_score gray c frame' s' = framediff gray frame' frame"
    if t: "tick gray c frame free s = Inr s'"
  proof -
    have r: "reachable gray c s'"
      using assms(1) t by (rule reach_tick)
    have len': "int (length (framebuffer s')) = maxframes c"
      using reachable_buffer_length [OF r] assms(2) by simp
    have l: "last (framebuffer s') = frame"
      using tick_Inr [OF t] by auto
    show ?thesis
      by (simp add: tick_score_def py_index_last [OF len' assms(2)] l)
  qed
  with first show ?thesis by blast
qed

theorem tick_score_previous_frame_witness:
  "reachable cvt_gray cfg2 (init_state cfg2 [white, black]) \<and> 1 \<le> maxframes cfg2
   \<and> framebuffer (init_state cfg2 [white, black]) = [white, black]
   \<and> tick_score cvt_gray cfg2 grey (init_state cfg2 [white, black]) = Inr 400
   \<and> (\<exists>s'. tick cvt_gray cfg2 grey roomy (init_state cfg2 [white, black]) = Inr s'
         \<and> framebuffer s' = [black, grey]
         \<and> tick_score cvt_gray cfg2 white s' = Inr 620)"
proof -
  let ?s = "init_state cfg2 [white, black]"
  let ?s' = "\<lparr>recording = True, savedframes = [white, black, grey], quietlen = 0,
              framebuffer = [black, grey], cooldown = 2, thresholdframecount = 0,
              printed = [StartedRecording], logged = [StartedRecording], written = []\<rparr>"
  have r: "reachable cvt_gray cfg2 ?s"
    by (rule reach_init) (simp add: cfg2_def cfg1_def)
  have m: "1 \<le> maxframes cfg2"
    by (simp add: cfg2_def cfg1_def)
  have fb: "framebuffer ?s = [white, black]"
    by (simp add: init_state_def cfg2_def cfg1_def)
  have t: "tick cvt_gray cfg2 grey roomy ?s = Inr ?s'"
    by (simp add: tick_defs rule_eval init_state_def cfg2_def cfg1_def fd_grey_black)
  note w = tick_score_previous_frame [OF r m, of grey roomy ?s' white]
  from w have "tick_score cvt_gray cfg2 grey ?s = framediff cvt_gray grey (last (framebuffer ?s))"
    by blast
  then have a: "tick_score cvt_gray cfg2 grey ?s = Inr 400"
    by (simp add: fb fd_grey_black)
  from w t have "tick_score cvt_gray cfg2 white ?s' = framediff cvt_gray white grey"
    by blast
  then have b: "tick_score cvt_gray cfg2 white ?s' = Inr 620"
    by (simp add: fd_white_grey)
  have "\<exists>s'. tick cvt_gray cfg2 grey roomy ?s = Inr s' \<and> framebuffer s' = [black, grey]
          \<and> tick_score cvt_gray cfg2 white s' = Inr 620"
    using t b by (intro exI [of _ ?s']) simp
  with r m fb a show ?thesis
    by blast
qed

text \<open>
  C2, as stated: whenever a recording starts, the saved frames are empty before they
  are seeded, so their first \<open>maxframes\<close> entries are the ring's contents. It fails
  after a recording that stopped without being saved: line 203 extends the list, which
  nothing has emptied. After a first recording of three frames the second start finds
  them still there, and the first entry is the black frame, not the grey one of the
  ring.
\<close>

theorem preroll_not_first_counterexample:
  "reachable cvt_gray cfg1 after_first
   \<and> tick_score cvt_gray cfg1 white after_first = Inr 620
   \<and> start_fires cfg1 620 after_first
   \<and> savedframes after_first \<noteq> []
   \<and> framebuffer after_first = [grey]
   \<and> take (nat (maxframes cfg1)) (savedframes (rules cfg1 620 white after_first)) = [black]
   \<and> take (nat (maxframes cfg1)) (savedframes (rules cfg1 620 white after_first))
       \<noteq> framebuffer after_first"
proof -
  have "tick_score cvt_gray cfg1 white after_first = Inr 620"
    by (simp add: tick_defs cfg1_def after_first_def fd_white_grey)
  moreover have "start_fires cfg1 620 after_first"
    by (simp add: rule_eval cfg1_def after_first_def)
  moreover have "savedframes after_first \<noteq> []" "framebuffer after_first = [grey]"
    by (simp_all add: after_first_def)
  moreover have "take (nat (maxframes cfg1)) (savedframes (rules cfg1 620 white after_first))
                 = [black]"
    by (simp add: rule_eval cfg1_def after_first_def)
  ultimately show ?thesis
    by (simp only: reachable_after_first frames_distinct list.inject simp_thms)
qed

text \<open>
  C2, amended: whenever a recording starts, the ring's contents are appended, oldest
  first and in the same order, to the saved frames, followed by the newest frame when
  the quiet counter is below \<open>maxframes\<close>; when the saved frames are empty at that
  moment, their first \<open>maxframes\<close> entries are the ring's contents.
\<close>

theorem start_appends_preroll:
  assumes "start_fires c d s"
  shows "savedframes (upto_start c d s) = savedframes s @ framebuffer s
       \<and> savedframes (rules c d frame s)
           = savedframes s @ framebuffer s @ (if quietlen s < maxframes c then [frame] else [])
       \<and> (savedframes s = [] \<and> int (length (framebuffer s)) = maxframes c
            \<longrightarrow> take (nat (maxframes c)) (savedframes (rules c d frame s)) = framebuffer s)"
proof -
  from assms have g: "start_guard c (threshold_rule c d s)"
    by (simp add: start_fires_def)
  have a: "savedframes (upto_start c d s) = savedframes s @ framebuffer s"
    by (simp add: upto_start_def rule_fields g)
  have b: "savedframes (rules c d frame s)
           = savedframes s @ framebuffer s @ (if quietlen s < maxframes c then [frame] else [])"
    by (simp add: rules_def upto_stop_def upto_start_def rule_fields g)
  have "take (nat (maxframes c)) (savedframes (rules c d frame s)) = framebuffer s"
    if "savedframes s = []" "int (length (framebuffer s)) = maxframes c"
    using that by (simp add: b)
  with a b show ?thesis by blast
qed

theorem start_appends_preroll_witness:
  "start_fires cfg1 400 (init_state cfg1 [black])
   \<and> savedframes (init_state cfg1 [black]) = []
   \<and> int (length (framebuffer (init_state cfg1 [black]))) = maxframes cfg1
   \<and> savedframes (rules cfg1 400 grey (init_state cfg1 [black])) = [black, grey]
   \<and> take (nat (maxframes cfg1)) (savedframes (rules cfg1 400 grey (init_state cfg1 [black])))
       = framebuffer (init_state cfg1 [black])
   \<and> start_fires cfg1 620 after_first
   \<and> savedframes (upto_start cfg1 620 after_first) = [black, grey, grey] @ [grey]
   \<and> savedframes (rules cfg1 620 white after_first) = [black, grey, grey] @ [grey]"
proof -
  have h: "start_fires cfg1 400 (init_state cfg1 [black])"
    by (simp add: rule_eval cfg1_def init_state_def)
  have e: "savedframes (init_state cfg1 [black]) = []"
    "int (length (framebuffer (init_state cfg1 [black]))) = maxframes cfg1"
    "framebuffer (init_state cfg1 [black]) = [black]"
    "quietlen (init_state cfg1 [black]) < maxframes cfg1"
    by (simp_all add: cfg1_def init_state_def)
  from start_appends_preroll [OF h, of grey] e
  have first: "savedframes (rules cfg1 400 grey (init_state cfg1 [black])) = [black, grey]"
    "take (nat (maxframes cfg1)) (savedframes (rules cfg1 400 grey (init_state cfg1 [black])))
       = framebuffer (init_state cfg1 [black])"
    by simp_all
  have h2: "start_fires cfg1 620 after_first"
    by (simp add: rule_eval cfg1_def after_first_def)
  have e2: "savedframes after_first = [black, grey, grey]" "framebuffer after_first = [grey]"
    "\<not> quietlen after_first < maxframes cfg1"
    by (simp_all add: cfg1_def after_first_def)
  from start_appends_preroll [OF h2, of white] e2
  have second: "savedframes (upto_start cfg1 620 after_first) = [black, grey, grey] @ [grey]"
    "savedframes (rules cfg1 620 white after_first) = [black, grey, grey] @ [grey]"
    by simp_all
  from h e(1,2) first h2 second show ?thesis
    by simp
qed

text \<open>
  C8: saving an empty list of frames is a no-operation that does not fail. The code
  does otherwise: with enough disk space, line 158 reads \<open>savedframes[0]\<close> and raises
  on the empty list, so an interrupt before any recording ends in that exception, in
  \<open>savetofile\<close> and in the handler that calls it.
\<close>

theorem savetofile_empty_raises:
  "reachable cvt_gray cfg1 (init_state cfg1 [black])
   \<and> savedframes (init_state cfg1 [black]) = []
   \<and> writable cfg1 roomy
   \<and> savetofile cfg1 roomy (init_state cfg1 [black]) = Inl IndexError
   \<and> signal_handler cfg1 roomy (init_state cfg1 [black]) = Inl IndexError"
  using reachable_init1
  by (simp add: signal_handler_def savetofile_def writable_def init_state_def cfg1_def roomy_def)

section \<open>Stopping, the second start and the size check\<close>

text \<open>
  C5: while a recording runs, the quiet counter counts the ticks below the threshold
  in a row, the stop is taken on exactly the tick that takes it to \<open>maxframes\<close>, and
  line 221 sets \<open>cooldown\<close> to 0 on that tick (line 223 then advances it to 1 before
  the tick ends).
\<close>

theorem recording_stops_after_maxframes_quiet:
  assumes "reachable gray c s" "1 \<le> maxframes c" "1 \<le> thresholdframes c" "recording s"
  shows "(stop_fires c d frame s \<longleftrightarrow> d < threshold c \<and> quietlen s + 1 = maxframes c)
       \<and> quietlen (rules c d frame s) = (if d < threshold c then quietlen s + 1 else 0)
       \<and> (stop_fires c d frame s
            \<longrightarrow> \<not> recording (upto_stop c d frame s) \<and> cooldown (upto_stop c d frame s) = 0
              \<and> \<not> recording (rules c d frame s) \<and> cooldown (rules c d frame s) = 1)
       \<and> (\<not> stop_fires c d frame s \<longrightarrow> recording (rules c d frame s))"
proof -
  from reachable_quiet_inv [OF assms(1-3)] assms(4)
  have q: "0 \<le> quietlen s" "quietlen s < maxframes c"
    by (simp_all add: quiet_inv_def)
  from q assms(2,4) show ?thesis
    by (auto simp: rule_defs)
qed

theorem recording_stops_after_maxframes_quiet_witness:
  "reachable cvt_gray cfg1 in_first \<and> 1 \<le> maxframes cfg1 \<and> 1 \<le> thresholdframes cfg1
   \<and> recording in_first \<and> (0::int) < threshold cfg1 \<and> quietlen in_first + 1 = maxframes cfg1
   \<and> stop_fires cfg1 0 grey in_first
   \<and> \<not> recording (rules cfg1 0 grey in_first)
   \<and> cooldown (upto_stop cfg1 0 grey in_first) = 0
   \<and> cooldown (rules cfg1 0 grey in_first) = 1"
proof -
  have h: "1 \<le> maxframes cfg1" "1 \<le> thresholdframes cfg1" "recording in_first"
    by (simp_all add: cfg1_def in_first_def)
  have e: "(0::int) < threshold cfg1" "quietlen in_first + 1 = maxframes cfg1"
    by (simp_all add: cfg1_def in_first_def)
  note w = recording_stops_after_maxframes_quiet [OF reachable_in_first h, of 0 grey]
  from w e have f: "stop_fires cfg1 0 grey in_first"
    by blast
  with w have "\<not> recording (rules cfg1 0 grey in_first)"
    "cooldown (upto_stop cfg1 0 grey in_first) = 0"
    "cooldown (rules cfg1 0 grey in_first) = 1"
    by blast+
  with reachable_in_first h e f show ?thesis
    by simp
qed

text \<open>
  C10: neither the start nor the stop resets the quiet counter. When a start is taken
  after an earlier recording has stopped, the counter still equals \<open>maxframes\<close>, the
  guard of line 207 fails, and the tick adds the ring's contents to the saved frames
  and nothing else.
\<close>

theorem second_start_drops_trigger_frame:
  assumes "reachable gray c s" "1 \<le> maxframes c" "1 \<le> thresholdframes c"
    "StoppedRecording \<in> set (printed s)" "start_fires c d s"
  shows "quietlen s = maxframes c
       \<and> quietlen (upto_start c d s) = quietlen s
       \<and> \<not> (quietlen (upto_start c d s) < maxframes c)
       \<and> savedframes (rules c d frame s) = savedframes s @ framebuffer s
       \<and> quietlen (stop_rule c t) = quietlen t
       \<and> quietlen (start_rule c t) = quietlen t"
proof -
  from assms(5) have g: "start_guard c (threshold_rule c d s)"
    by (simp add: start_fires_def)
  then have nr: "\<not> recording s"
    by (simp add: start_guard_def rule_fields)
  from reachable_quiet_inv [OF assms(1-3)] nr assms(4)
  have q: "quietlen s = maxframes c"
    by (simp add: quiet_inv_def)
  have a: "quietlen (upto_start c d s) = quietlen s"
    by (simp add: upto_start_def rule_fields)
  have b: "savedframes (rules c d frame s) = savedframes s @ framebuffer s"
    using q by (simp add: rules_def upto_stop_def upto_start_def rule_fields g)
  have c: "quietlen (stop_rule c t) = quietlen t" "quietlen (start_rule c t) = quietlen t"
    by (simp_all add: rule_fields)
  from q a b c show ?thesis by simp
qed

theorem second_start_drops_trigger_frame_witness:
  "reachable cvt_gray cfg1 after_first \<and> 1 \<le> maxframes cfg1 \<and> 1 \<le> thresholdframes cfg1
   \<and> StoppedRecording \<in> set (printed after_first) \<and> start_fires cfg1 620 after_first
   \<and> quietlen after_first = maxframes cfg1
   \<and> savedframes (rules cfg1 620 white after_first) = [black, grey, grey, grey]"
proof -
  have h: "1 \<le> maxframes cfg1" "1 \<le> thresholdframes cfg1"
    "StoppedRecording \<in> set (printed after_first)" "start_fires cfg1 620 after_first"
    by (simp_all add: rule_eval cfg1_def after_first_def)
  note w = second_start_drops_trigger_frame [OF reachable_after_first h, of white]
  from w have "quietlen after_first = maxframes cfg1"
    by blast
  moreover from w have "savedframes (rules cfg1 620 white after_first)
                        = savedframes after_first @ framebuffer after_first"
    by blast
  then have "savedframes (rules cfg1 620 white after_first) = [black, grey, grey, grey]"
    by (simp add: after_first_def)
  ultimately show ?thesis
    using reachable_after_first h by simp
qed

text \<open>
  C7: at the end of a tick the saved frames are handed to \<open>savetofile\<close> exactly when
  their number has reached \<open>maxsavedframes\<close>, whether a recording runs or not. Below
  it the tick ends in the state line 227 leaves. At or above it, with the disk space
  there, the frames are written to one file and the list is emptied; without the disk
  space the process exits with status 1.
\<close>

theorem size_triggered_flush:
  assumes "step gray c frame s = Inr s1" "1 \<le> maxsavedframes c"
  shows "(int (length (savedframes s1)) < maxsavedframes c
            \<longrightarrow> tick gray c frame free s = Inr s1)
       \<and> (maxsavedframes c \<le> int (length (savedframes s1)) \<and> writable c free
            \<longrightarrow> (\<exists>s2. tick gray c frame free s = Inr s2
                   \<and> savedframes s2 = []
                   \<and> written s2 = written s1 @ [savedframes s1]
                   \<and> savedframes s1 \<noteq> []
                   \<and> recording s2 = recording s1))
       \<and> (maxsavedframes c \<le> int (length (savedframes s1)) \<and> \<not> writable c free
            \<longrightarrow> tick gray c frame free s = Inl SystemExit1)"
proof -
  have a: "tick gray c frame free s = Inr s1"
    if "int (length (savedframes s1)) < maxsavedframes c"
    using that assms(1) by (simp add: tick_def flush_guard_def)
  have t: "tick gray c frame free s = savetofile c free s1"
    if "maxsavedframes c \<le> int (length (savedframes s1))"
    using that assms(1) by (simp add: tick_def flush_guard_def)
  have ne: "savedframes s1 \<noteq> []" if "maxsavedframes c \<le> int (length (savedframes s1))"
    using that assms(2) by auto
  have b: "\<exists>s2. tick gray c frame free s = Inr s2 \<and> savedframes s2 = []
             \<and> written s2 = written s1 @ [savedframes s1] \<and> savedframes s1 \<noteq> []
             \<and> recording s2 = recording s1"
    if "maxsavedframes c \<le> int (length (savedframes s1))" "writable c free"
    using t [OF that(1)] ne [OF that(1)] that(2)
    by (cases "savedframes s1") (simp_all add: savetofile_def emit_def)
  have c: "tick gray c frame free s = Inl SystemExit1"
    if "maxsavedframes c \<le> int (length (savedframes s1))" "\<not> writable c free"
    using t [OF that(1)] that(2) by (auto simp: savetofile_def writable_def)
  from a b c show ?thesis by blast
qed

lemma step_small:
  "step cvt_gray cfg_small grey (init_state cfg_small [black]) = Inr in_first"
  by (simp add: tick_defs rule_eval init_state_def cfg_small_def cfg1_def in_first_def
      fd_grey_black)

theorem size_triggered_flush_witness:
  "step cvt_gray cfg_small grey (init_state cfg_small [black]) = Inr in_first
   \<and> 1 \<le> maxsavedframes cfg_small
   \<and> maxsavedframes cfg_small \<le> int (length (savedframes in_first))
   \<and> writable cfg_small roomy \<and> \<not> writable cfg_small 0
   \<and> (\<exists>s2. tick cvt_gray cfg_small grey roomy (init_state cfg_small [black]) = Inr s2
         \<and> savedframes s2 = [] \<and> written s2 = [ [black, grey] ] \<and> recording s2)
   \<and> tick cvt_gray cfg_small grey 0 (init_state cfg_small [black]) = Inl SystemExit1"
proof -
  have h: "1 \<le> maxsavedframes cfg_small"
    by (simp add: cfg_small_def cfg1_def)
  have e: "maxsavedframes cfg_small \<le> int (length (savedframes in_first))"
    "writable cfg_small roomy" "\<not> writable cfg_small 0"
    by (simp_all add: cfg_small_def cfg1_def in_first_def writable_def roomy_def)
  have v: "written in_first @ [savedframes in_first] = [ [black, grey] ]" "recording in_first"
    by (simp_all add: in_first_def)
  from size_triggered_flush [OF step_small h, of roomy] e
  obtain s2 where "tick cvt_gray cfg_small grey roomy (init_state cfg_small [black]) = Inr s2"
    "savedframes s2 = []" "written s2 = written in_first @ [savedframes in_first]"
    "recording s2 = recording in_first"
    by blast
  with v have "\<exists>s2. tick cvt_gray cfg_small grey roomy (init_state cfg_small [black]) = Inr s2
         \<and> savedframes s2 = [] \<and> written s2 = [ [black, grey] ] \<and> recording s2"
    by auto
  moreover from size_triggered_flush [OF step_small h, of 0] e
  have "tick cvt_gray cfg_small grey 0 (init_state cfg_small [black]) = Inl SystemExit1"
    by blast
  ultimately show ?thesis
    using step_small h e by blast
qed

section \<open>Starting after consecutive scores\<close>











end
